theory Spec2Isabelle
  imports Main
begin

section \<open>The implementors data file of \<open>core::ops::ShrAssign\<close>\<close>

text \<open>
  The source is \<^verbatim>\<open>docs/master/implementors/core/ops/trait.ShrAssign.js\<close>, a generated
  script that a documentation page loads:
  \<^verbatim>\<open>
  (function() {var implementors = {};
  implementors["fasthash"] = ["impl ... for u128", ..., "impl ... for i128",];

              if (window.register_implementors) {
                  window.register_implementors(implementors);
              } else {
                  window.pending_implementors = implementors;
              }

  })()
  \<close>
  The script builds one object, then either calls the global function
  \<open>register_implementors\<close> with it or stores it in the global \<open>pending_implementors\<close>.
\<close>

subsection \<open>Values\<close>

text \<open>
  An implementor descriptor is a string of pre-rendered HTML. The object \<open>implementors\<close>
  maps a crate name to an array of descriptors; a property that was never assigned is
  absent (\<open>None\<close>).
\<close>

type_synonym descriptor = string

type_synonym payload = "string \<rightharpoonup> descriptor list"

text \<open>
  A property of \<open>window\<close> can hold any JavaScript value. Numbers are modelled as
  integers with a separate \<open>NaN\<close>; a function value is named by an identifier, and the
  host page says what the function with that identifier does (see \<open>host\<close> below).
  Reading a property that was never set gives \<open>Undefined\<close>.
\<close>

datatype js_value =
    Undefined
  | Null
  | Boolean bool
  | Number int
  | NaN
  | Str string
  | Object payload
  | Function nat

text \<open>
  The condition of an \<^verbatim>\<open>if\<close> is converted with ToBoolean: \<open>undefined\<close>, \<open>null\<close>,
  \<open>false\<close>, \<open>0\<close>, \<open>NaN\<close> and the empty string are falsy, every object and every
  function is truthy.
\<close>

fun to_boolean :: "js_value \<Rightarrow> bool" where
  "to_boolean Undefined = False"
| "to_boolean Null = False"
| "to_boolean (Boolean b) = b"
| "to_boolean (Number n) = (n \<noteq> 0)"
| "to_boolean NaN = False"
| "to_boolean (Str s) = (s \<noteq> [])"
| "to_boolean (Object p) = True"
| "to_boolean (Function f) = True"

text \<open>
  An exception that leaves the script: the TypeError of calling a value that is not a
  function, or whatever a called function throws. The script has no handler, so the
  exception ends it; the state it leaves behind is not modelled.
\<close>

datatype js_error =
    TypeError
  | Thrown string

subsection \<open>The page\<close>

text \<open>
  The state of the page, as far as the script can reach it: the two properties of
  \<open>window\<close> that it names, and everything else of the process (the other globals, the
  document, the state of the site's own script) as \<open>host_state\<close>. The field
  \<open>invocations\<close> is a history variable: it lists, oldest first, the calls that were made
  through \<open>call\<close>, each with the function's identifier and its argument. No JavaScript
  code reads or writes it.
\<close>

record 'x page =
  register_implementors :: js_value
  pending_implementors :: js_value
  invocations :: "(nat \<times> payload) list"
  host_state :: 'x

text \<open>
  The functions of the host page: \<open>host f p w\<close> is what calling the function
  with identifier \<open>f\<close> on the argument \<open>p\<close> does in the state \<open>w\<close>. It either throws
  (\<open>Inl\<close>) or returns with a new state (\<open>Inr\<close>); the value it returns is dropped by the
  script, which uses the call as a statement.
\<close>

type_synonym 'x host = "nat \<Rightarrow> payload \<Rightarrow> 'x page \<Rightarrow> js_error + 'x page"

text \<open>
  The call expression \<^verbatim>\<open>v(p)\<close>. A value that is not a function cannot be called:
  JavaScript throws a TypeError. A call of a function is written to the history after
  the function returns, over whatever the function's model did to that field.
\<close>

definition call :: "'x host \<Rightarrow> js_value \<Rightarrow> payload \<Rightarrow> 'x page \<Rightarrow> js_error + 'x page" where
  "call host v p w =
     (case v of
        Function f \<Rightarrow>
          (case host f p w of
             Inl e \<Rightarrow> Inl e
           | Inr w' \<Rightarrow> Inr (w'\<lparr>invocations := invocations w @ [(f, p)]\<rparr>))
      | _ \<Rightarrow> Inl TypeError)"

subsection \<open>The script\<close>

text \<open>
  Lines 4 to 8 of the source, for any object \<open>implementors\<close>: the handoff that the
  specification calls \<open>publish\<close>. The \<^verbatim>\<open>if\<close> statement has no value, so the result
  is the new state alone, or the exception that left the script.
\<close>

definition publish :: "'x host \<Rightarrow> payload \<Rightarrow> 'x page \<Rightarrow> js_error + 'x page" where
  "publish host implementors w =
     (if to_boolean (register_implementors w)
      then call host (register_implementors w) implementors w
      else Inr (w\<lparr>pending_implementors := Object implementors\<rparr>))"

text \<open>
  Lines 1 and 2 of the source: \<^verbatim>\<open>var implementors = {}\<close>, then the assignment of
  the array of twenty strings to the property \<^verbatim>\<open>"fasthash"\<close>. The comma after the
  last element of the array literal adds no element.
\<close>

definition implementors :: payload where
  "implementors = (Map.empty :: payload)(''fasthash'' \<mapsto> [
      ''impl <a class='trait' href='https://doc.rust-lang.org/nightly/core/ops/trait.ShrAssign.html' title='core::ops::ShrAssign'>ShrAssign</a>&lt;<a class='primitive' href='https://doc.rust-lang.org/nightly/std/primitive.u8.html'>u8</a>&gt; for u128'',
      ''impl <a class='trait' href='https://doc.rust-lang.org/nightly/core/ops/trait.ShrAssign.html' title='core::ops::ShrAssign'>ShrAssign</a>&lt;<a class='primitive' href='https://doc.rust-lang.org/nightly/std/primitive.u16.html'>u16</a>&gt; for u128'',
      ''impl <a class='trait' href='https://doc.rust-lang.org/nightly/core/ops/trait.ShrAssign.html' title='core::ops::ShrAssign'>ShrAssign</a>&lt;<a class='primitive' href='https://doc.rust-lang.org/nightly/std/primitive.u32.html'>u32</a>&gt; for u128'',
      ''impl <a class='trait' href='https://doc.rust-lang.org/nightly/core/ops/trait.ShrAssign.html' title='core::ops::ShrAssign'>ShrAssign</a>&lt;<a class='primitive' href='https://doc.rust-lang.org/nightly/std/primitive.u64.html'>u64</a>&gt; for u128'',
      ''impl <a class='trait' href='https://doc.rust-lang.org/nightly/core/ops/trait.ShrAssign.html' title='core::ops::ShrAssign'>ShrAssign</a>&lt;<a class='primitive' href='https://doc.rust-lang.org/nightly/std/primitive.usize.html'>usize</a>&gt; for u128'',
      ''impl <a class='trait' href='https://doc.rust-lang.org/nightly/core/ops/trait.ShrAssign.html' title='core::ops::ShrAssign'>ShrAssign</a>&lt;<a class='primitive' href='https://doc.rust-lang.org/nightly/std/primitive.i8.html'>i8</a>&gt; for u128'',
      ''impl <a class='trait' href='https://doc.rust-lang.org/nightly/core/ops/trait.ShrAssign.html' title='core::ops::ShrAssign'>ShrAssign</a>&lt;<a class='primitive' href='https://doc.rust-lang.org/nightly/std/primitive.i16.html'>i16</a>&gt; for u128'',
      ''impl <a class='trait' href='https://doc.rust-lang.org/nightly/core/ops/trait.ShrAssign.html' title='core::ops::ShrAssign'>ShrAssign</a>&lt;<a class='primitive' href='https://doc.rust-lang.org/nightly/std/primitive.i32.html'>i32</a>&gt; for u128'',
      ''impl <a class='trait' href='https://doc.rust-lang.org/nightly/core/ops/trait.ShrAssign.html' title='core::ops::ShrAssign'>ShrAssign</a>&lt;<a class='primitive' href='https://doc.rust-lang.org/nightly/std/primitive.i64.html'>i64</a>&gt; for u128'',
      ''impl <a class='trait' href='https://doc.rust-lang.org/nightly/core/ops/trait.ShrAssign.html' title='core::ops::ShrAssign'>ShrAssign</a>&lt;<a class='primitive' href='https://doc.rust-lang.org/nightly/std/primitive.isize.html'>isize</a>&gt; for u128'',
      ''impl <a class='trait' href='https://doc.rust-lang.org/nightly/core/ops/trait.ShrAssign.html' title='core::ops::ShrAssign'>ShrAssign</a>&lt;<a class='primitive' href='https://doc.rust-lang.org/nightly/std/primitive.u8.html'>u8</a>&gt; for i128'',
      ''impl <a class='trait' href='https://doc.rust-lang.org/nightly/core/ops/trait.ShrAssign.html' title='core::ops::ShrAssign'>ShrAssign</a>&lt;<a class='primitive' href='https://doc.rust-lang.org/nightly/std/primitive.u16.html'>u16</a>&gt; for i128'',
      ''impl <a class='trait' href='https://doc.rust-lang.org/nightly/core/ops/trait.ShrAssign.html' title='core::ops::ShrAssign'>ShrAssign</a>&lt;<a class='primitive' href='https://doc.rust-lang.org/nightly/std/primitive.u32.html'>u32</a>&gt; for i128'',
      ''impl <a class='trait' href='https://doc.rust-lang.org/nightly/core/ops/trait.ShrAssign.html' title='core::ops::ShrAssign'>ShrAssign</a>&lt;<a class='primitive' href='https://doc.rust-lang.org/nightly/std/primitive.u64.html'>u64</a>&gt; for i128'',
      ''impl <a class='trait' href='https://doc.rust-lang.org/nightly/core/ops/trait.ShrAssign.html' title='core::ops::ShrAssign'>ShrAssign</a>&lt;<a class='primitive' href='https://doc.rust-lang.org/nightly/std/primitive.usize.html'>usize</a>&gt; for i128'',
      ''impl <a class='trait' href='https://doc.rust-lang.org/nightly/core/ops/trait.ShrAssign.html' title='core::ops::ShrAssign'>ShrAssign</a>&lt;<a class='primitive' href='https://doc.rust-lang.org/nightly/std/primitive.i8.html'>i8</a>&gt; for i128'',
      ''impl <a class='trait' href='https://doc.rust-lang.org/nightly/core/ops/trait.ShrAssign.html' title='core::ops::ShrAssign'>ShrAssign</a>&lt;<a class='primitive' href='https://doc.rust-lang.org/nightly/std/primitive.i16.html'>i16</a>&gt; for i128'',
      ''impl <a class='trait' href='https://doc.rust-lang.org/nightly/core/ops/trait.ShrAssign.html' title='core::ops::ShrAssign'>ShrAssign</a>&lt;<a class='primitive' href='https://doc.rust-lang.org/nightly/std/primitive.i32.html'>i32</a>&gt; for i128'',
      ''impl <a class='trait' href='https://doc.rust-lang.org/nightly/core/ops/trait.ShrAssign.html' title='core::ops::ShrAssign'>ShrAssign</a>&lt;<a class='primitive' href='https://doc.rust-lang.org/nightly/std/primitive.i64.html'>i64</a>&gt; for i128'',
      ''impl <a class='trait' href='https://doc.rust-lang.org/nightly/core/ops/trait.ShrAssign.html' title='core::ops::ShrAssign'>ShrAssign</a>&lt;<a class='primitive' href='https://doc.rust-lang.org/nightly/std/primitive.isize.html'>isize</a>&gt; for i128''])"

text \<open>The whole script: the immediately invoked function of lines 1 to 10.\<close>

definition data_publisher :: "'x host \<Rightarrow> 'x page \<Rightarrow> js_error + 'x page" where
  "data_publisher host w = publish host implementors w"

subsection \<open>The descriptors, as the documentation generator lays them out\<close>

text \<open>
  The descriptor of \<^verbatim>\<open>impl ShrAssign<rhs> for self\<close>: the trait's link, then the
  link of the primitive type \<open>rhs\<close>, then the implementing type.
\<close>

definition shr_assign_impl :: "string \<Rightarrow> string \<Rightarrow> descriptor" where
  "shr_assign_impl self rhs =
     ''impl <a class='trait' href='https://doc.rust-lang.org/nightly/core/ops/trait.ShrAssign.html' title='core::ops::ShrAssign'>ShrAssign</a>&lt;<a class='primitive' href='https://doc.rust-lang.org/nightly/std/primitive.''
     @ rhs @ ''.html'>'' @ rhs @ ''</a>&gt; for '' @ self"

definition rhs_types :: "string list" where
  "rhs_types =
     [''u8'', ''u16'', ''u32'', ''u64'', ''usize'', ''i8'', ''i16'', ''i32'', ''i64'', ''isize'']"

subsection \<open>The Core Registrar\<close>

text \<open>
  The site's shared script, which defines \<open>register_implementors\<close> and reads
  \<open>pending_implementors\<close>, is not among the sources. Its state and its two operations
  are modelled from the specification (sections 4.2 and 8).
\<close>

text \<open>
  Modelled from the spec: the state of the Core Registrar, which is missing from the
  sources. It is the "running display model (keyed by library identifier)", with a count
  of the render passes that were triggered.
\<close>

record registrar =
  display :: "string \<rightharpoonup> descriptor list"
  renders :: nat

text \<open>
  Modelled from the spec: the acceptance operation of the Core Registrar, which is
  missing from the sources. "Idempotent merge of an incoming Payload's entries into the
  registrar's running display model (keyed by library identifier), then triggers a render
  pass"; "last-write-wins per key".
\<close>

definition accept :: "payload \<Rightarrow> registrar page \<Rightarrow> registrar page" where
  "accept p w =
     w\<lparr>host_state :=
         \<lparr>display = display (host_state w) ++ p,
          renders = Suc (renders (host_state w))\<rparr>\<rparr>"

text \<open>
  Modelled from the spec: the functions of a page whose only script besides the data
  files is the Core Registrar, which is missing from the sources. The function stored in
  \<open>register_implementors\<close> is the acceptance operation, which has no error condition.
\<close>

definition registrar_id :: nat where
  "registrar_id = 0"

definition registrar_host :: "registrar host" where
  "registrar_host f p w = Inr (accept p w)"

text \<open>
  Modelled from the spec: the initialization of the Core Registrar (the transition
  \<open>install\<close>), which is missing from the sources. "The hosting page installs the Core
  Registrar handle. Initialization must check PendingBuffer and, if non-empty,
  immediately process the staged payload as if it had just been published, then clear the
  buffer." With an empty buffer nothing is accepted and nothing is rendered.
\<close>

definition install :: "registrar page \<Rightarrow> js_error + registrar page" where
  "install w =
     (let w1 = w\<lparr>register_implementors := Function registrar_id\<rparr> in
      case pending_implementors w1 of
        Object p \<Rightarrow>
          (case publish registrar_host p w1 of
             Inl e \<Rightarrow> Inl e
           | Inr w2 \<Rightarrow> Inr (w2\<lparr>pending_implementors := Undefined\<rparr>))
      | _ \<Rightarrow> Inr w1)"

text \<open>
  Modelled from the spec: the page before any script has run (state \<open>Uninitialized\<close>
  with an empty PendingBuffer and an empty display model), which is missing from the
  sources.
\<close>

definition init_page :: "registrar page" where
  "init_page =
     \<lparr>register_implementors = Undefined,
      pending_implementors = Undefined,
      invocations = [],
      host_state = \<lparr>display = Map.empty, renders = 0\<rparr>\<rparr>"

text \<open>
  The scripts of a page run one after the other, in an order that the page's loading
  decides: each event is one data file publishing its object, or the Core Registrar
  installing itself. An exception ends the run.
\<close>

datatype event = Publish payload | Install

fun step :: "event \<Rightarrow> registrar page \<Rightarrow> js_error + registrar page" where
  "step (Publish p) w = publish registrar_host p w"
| "step Install w = install w"

fun run :: "event list \<Rightarrow> registrar page \<Rightarrow> js_error + registrar page" where
  "run [] w = Inr w"
| "run (e # es) w = (case step e w of Inl x \<Rightarrow> Inl x | Inr w' \<Rightarrow> run es w')"

text \<open>The payloads that the registrar accepted in a run, oldest first.\<close>

definition deliveries :: "js_error + registrar page \<Rightarrow> payload list" where
  "deliveries r = (case r of Inl e \<Rightarrow> [] | Inr w \<Rightarrow> map snd (invocations w))"

subsection \<open>Sample values\<close>

definition payload_A :: payload where
  "payload_A = (Map.empty :: payload)(''libA'' \<mapsto> [''x'', ''y''])"

definition payload_B :: payload where
  "payload_B = (Map.empty :: payload)(''libB'' \<mapsto> [''z''])"

text \<open>
  Two page functions that make a call visible from outside. The first keeps, in the rest
  of the page, the list of the arguments it was called with, oldest first. The second
  throws an exception of its own as soon as it is called.
\<close>

definition recording_host :: "(payload list) host" where
  "recording_host f p w = Inr (w\<lparr>host_state := host_state w @ [p]\<rparr>)"

definition throwing_host :: "'x host" where
  "throwing_host f p w = Inl (Thrown ''called'')"

text \<open>A page of the recording function, with nothing recorded yet.\<close>

definition recording_page :: "(payload list) page" where
  "recording_page =
     \<lparr>register_implementors = Function registrar_id,
      pending_implementors = Undefined,
      invocations = [],
      host_state = []\<rparr>"

text \<open>The empty page after the Core Registrar stored its function.\<close>

definition ready_page :: "registrar page" where
  "ready_page = init_page\<lparr>register_implementors := Function registrar_id\<rparr>"

section \<open>Properties\<close>

subsection \<open>The two branches\<close>

lemma publish_falsy:
  "\<not> to_boolean (register_implementors w) \<Longrightarrow>
     publish host P w = Inr (w\<lparr>pending_implementors := Object P\<rparr>)"
  by (simp add: publish_def)

lemma publish_function:
  "register_implementors w = Function f \<Longrightarrow>
     publish host P w =
       (case host f P w of
          Inl e \<Rightarrow> Inl e
        | Inr w1 \<Rightarrow> Inr (w1\<lparr>invocations := invocations w @ [(f, P)]\<rparr>))"
  by (simp add: publish_def call_def)

lemma call_not_function:
  "(\<And>f. v \<noteq> Function f) \<Longrightarrow> call host v P w = Inl TypeError"
  by (cases v) (auto simp: call_def)

lemma publish_truthy_cases:
  assumes "to_boolean (register_implementors w)" and "publish host P w = Inr w'"
  obtains f w1 where "register_implementors w = Function f" and "host f P w = Inr w1"
    and "w' = w1\<lparr>invocations := invocations w @ [(f, P)]\<rparr>"
proof (cases "register_implementors w")
  case (Function f)
  with assms(2) show ?thesis
    by (auto simp: publish_function split: sum.splits intro: that)
qed (use assms in \<open>simp_all add: publish_def call_def\<close>)

lemma publish_recording:
  "register_implementors v = Function f \<Longrightarrow>
     publish recording_host P v =
       Inr (v\<lparr>invocations := invocations v @ [(f, P)],
              host_state := host_state v @ [P]\<rparr>)"
  by (simp add: publish_function recording_host_def)

lemma publish_throwing:
  "register_implementors w = Function f \<Longrightarrow>
     publish throwing_host P w = Inl (Thrown ''called'')"
  by (simp add: publish_function throwing_host_def)

lemma publish_truthy_not_function:
  "to_boolean (register_implementors w) \<Longrightarrow> (\<And>f. register_implementors w \<noteq> Function f) \<Longrightarrow>
     publish host P w = Inl TypeError"
  by (simp add: publish_def call_not_function)

lemma implementors_generated:
  "implementors =
     [''fasthash'' \<mapsto>
        map (shr_assign_impl ''u128'') rhs_types @ map (shr_assign_impl ''i128'') rhs_types]"
  by (simp add: implementors_def shr_assign_impl_def rhs_types_def)

lemma data_publisher_falsy:
  "\<not> to_boolean (register_implementors w) \<Longrightarrow>
     data_publisher host w = Inr (w\<lparr>pending_implementors := Object implementors\<rparr>)"
  by (simp add: data_publisher_def publish_falsy)

lemma data_publisher_function:
  "register_implementors w = Function f \<Longrightarrow>
     data_publisher host w =
       (case host f implementors w of
          Inl e \<Rightarrow> Inl e
        | Inr w1 \<Rightarrow> Inr (w1\<lparr>invocations := invocations w @ [(f, implementors)]\<rparr>))"
  by (simp add: data_publisher_def publish_function)

lemma data_publisher_recording:
  "register_implementors v = Function f \<Longrightarrow>
     data_publisher recording_host v =
       Inr (v\<lparr>invocations := invocations v @ [(f, implementors)],
              host_state := host_state v @ [implementors]\<rparr>)"
  by (simp add: data_publisher_def publish_recording)

subsection \<open>Runs with the Core Registrar\<close>

lemma run_append:
  "run (xs @ ys) w = (case run xs w of Inl e \<Rightarrow> Inl e | Inr w' \<Rightarrow> run ys w')"
  by (induction xs arbitrary: w) (auto split: sum.splits)

lemma run_publishes_uninitialized:
  "\<not> to_boolean (register_implementors w) \<Longrightarrow>
     run (map Publish ps) w =
       Inr (if ps = [] then w else w\<lparr>pending_implementors := Object (last ps)\<rparr>)"
proof (induction ps arbitrary: w)
  case Nil
  then show ?case by simp
next
  case (Cons p ps)
  have "\<not> to_boolean (register_implementors (w\<lparr>pending_implementors := Object p\<rparr>))"
    using Cons.prems by simp
  from Cons.IH [OF this] Cons.prems show ?case
    by (simp add: publish_falsy)
qed

lemma publish_registrar:
  "register_implementors w = Function f \<Longrightarrow>
     publish registrar_host P w =
       Inr (w\<lparr>invocations := invocations w @ [(f, P)],
              host_state := \<lparr>display = display (host_state w) ++ P,
                              renders = Suc (renders (host_state w))\<rparr>\<rparr>)"
  by (simp add: publish_function registrar_host_def accept_def)

lemma run_publishes_ready:
  "register_implementors w = Function f \<Longrightarrow>
     run (map Publish qs) w =
       Inr (w\<lparr>invocations := invocations w @ map (Pair f) qs,
              host_state := \<lparr>display = foldl (++) (display (host_state w)) qs,
                              renders = renders (host_state w) + length qs\<rparr>\<rparr>)"
proof (induction qs arbitrary: w)
  case Nil
  then show ?case by simp
next
  case (Cons q qs)
  let ?w1 = "w\<lparr>invocations := invocations w @ [(f, q)],
              host_state := \<lparr>display = display (host_state w) ++ q,
                              renders = Suc (renders (host_state w))\<rparr>\<rparr>"
  have "register_implementors ?w1 = Function f"
    using Cons.prems by simp
  from Cons.IH [OF this] Cons.prems show ?case
    by (simp add: publish_registrar)
qed

lemma install_empty:
  "pending_implementors w = Undefined \<Longrightarrow>
     install w = Inr (w\<lparr>register_implementors := Function registrar_id\<rparr>)"
  by (simp add: install_def)

lemma install_staged:
  "pending_implementors w = Object p \<Longrightarrow>
     install w =
       Inr (w\<lparr>register_implementors := Function registrar_id,
              pending_implementors := Undefined,
              invocations := invocations w @ [(registrar_id, p)],
              host_state := \<lparr>display = display (host_state w) ++ p,
                              renders = Suc (renders (host_state w))\<rparr>\<rparr>)"
  by (simp add: install_def publish_registrar)

lemma payload_A_neq_B: "payload_A \<noteq> payload_B"
proof
  assume "payload_A = payload_B"
  then have "payload_A ''libA'' = payload_B ''libA''" by simp
  then show False by (simp add: payload_A_def payload_B_def)
qed

subsection \<open>The branch taken when the registrar is there\<close>

text \<open>
  Claim C3. When \<open>register_implementors\<close> holds a function as \<open>publish\<close> runs with the
  payload \<open>P\<close>, the whole effect of \<open>publish\<close> is one call of that function with \<open>P\<close>, made
  in the state that \<open>publish\<close> found: the history grows by exactly this call, and
  \<open>pending_implementors\<close> holds afterwards what the function left there, so \<open>publish\<close>
  writes nothing to it. An exception of the function leaves \<open>publish\<close> as it is.
\<close>

theorem publish_ready_calls_once:
  assumes "register_implementors w = Function f"
  shows "publish host P w =
           (case host f P w of
              Inl e \<Rightarrow> Inl e
            | Inr w1 \<Rightarrow> Inr (w1\<lparr>invocations := invocations w @ [(f, P)]\<rparr>))
         \<and> (\<forall>w'. publish host P w = Inr w' \<longrightarrow>
               invocations w' = invocations w @ [(f, P)]
               \<and> (\<exists>w1. host f P w = Inr w1
                     \<and> pending_implementors w' = pending_implementors w1
                     \<and> register_implementors w' = register_implementors w1
                     \<and> host_state w' = host_state w1))"
  using assms by (auto simp: publish_function split: sum.splits)

theorem publish_ready_calls_once_witness:
  "register_implementors (ready_page\<lparr>pending_implementors := Object payload_A\<rparr>)
     = Function registrar_id
   \<and> publish registrar_host payload_B (ready_page\<lparr>pending_implementors := Object payload_A\<rparr>)
     = Inr \<lparr>register_implementors = Function registrar_id,
            pending_implementors = Object payload_A,
            invocations = [(registrar_id, payload_B)],
            host_state = \<lparr>display = payload_B, renders = 1\<rparr>\<rparr>"
proof -
  let ?w = "ready_page\<lparr>pending_implementors := Object payload_A\<rparr>"
  have h: "register_implementors ?w = Function registrar_id"
    by (simp add: ready_page_def)
  from publish_ready_calls_once [OF h, of registrar_host payload_B] h show ?thesis
    by (simp add: registrar_host_def accept_def ready_page_def init_page_def)
qed

subsection \<open>The branch taken when the registrar is not there\<close>

text \<open>
  Claim C4. When \<open>register_implementors\<close> is absent (or holds any other falsy value) as
  \<open>publish\<close> runs with the payload \<open>P\<close>, the new state is the old one with \<open>P\<close> in
  \<open>pending_implementors\<close>, whatever that property held before: the old value is replaced,
  not merged. No function is called: the result is the same for every host, the history
  of calls and the rest of the page are as before.
\<close>

theorem publish_uninitialized_stages:
  assumes "\<not> to_boolean (register_implementors w)"
  shows "publish host P w = Inr (w\<lparr>pending_implementors := Object P\<rparr>)
         \<and> (\<forall>w'. publish host P w = Inr w' \<longrightarrow>
               pending_implementors w' = Object P
               \<and> invocations w' = invocations w
               \<and> host_state w' = host_state w)"
  using assms by (simp add: publish_falsy)

theorem publish_uninitialized_stages_witness:
  "\<not> to_boolean (register_implementors (init_page\<lparr>pending_implementors := Object payload_A\<rparr>))
   \<and> publish registrar_host payload_B (init_page\<lparr>pending_implementors := Object payload_A\<rparr>)
     = Inr \<lparr>register_implementors = Undefined,
            pending_implementors = Object payload_B,
            invocations = [],
            host_state = \<lparr>display = Map.empty, renders = 0\<rparr>\<rparr>"
proof -
  let ?w = "init_page\<lparr>pending_implementors := Object payload_A\<rparr>"
  have h: "\<not> to_boolean (register_implementors ?w)"
    by (simp add: init_page_def)
  from publish_uninitialized_stages [OF h, of registrar_host payload_B] h show ?thesis
    by (simp add: init_page_def)
qed

subsection \<open>The payload is handed over as it is\<close>

text \<open>
  Claim C5. Whichever branch \<open>publish\<close> takes, the object that it hands over is the payload
  it was given. On the branch with the registrar, the function is applied to \<open>P\<close> itself,
  for every page function; a function that records its argument has then recorded a
  mapping with the keys of \<open>P\<close> and, for each key, the descriptor sequence of \<open>P\<close>, in
  the same order. On the other branch, the object found in \<open>pending_implementors\<close>
  afterwards has the keys of \<open>P\<close> and, for each key, the descriptor sequence of \<open>P\<close>.
\<close>

theorem publish_hands_payload_unchanged:
  "(register_implementors w = Function f \<longrightarrow>
      publish host P w =
        (case host f P w of
           Inl e \<Rightarrow> Inl e
         | Inr w1 \<Rightarrow> Inr (w1\<lparr>invocations := invocations w @ [(f, P)]\<rparr>)))
   \<and> (register_implementors v = Function f \<longrightarrow>
        (\<exists>v'. publish recording_host P v = Inr v'
           \<and> host_state v' = host_state v @ [P]
           \<and> (\<forall>P'. host_state v' = host_state v @ [P'] \<longrightarrow>
                 dom P' = dom P \<and> (\<forall>k. P' k = P k))))
   \<and> (\<not> to_boolean (register_implementors w) \<longrightarrow>
        (\<exists>w'. publish host P w = Inr w'
           \<and> pending_implementors w' = Object P
           \<and> (\<forall>P'. pending_implementors w' = Object P' \<longrightarrow>
                 dom P' = dom P \<and> (\<forall>k. P' k = P k))))"
proof (intro conjI impI)
  assume "register_implementors w = Function f"
  then show "publish host P w =
      (case host f P w of
         Inl e \<Rightarrow> Inl e
       | Inr w1 \<Rightarrow> Inr (w1\<lparr>invocations := invocations w @ [(f, P)]\<rparr>))"
    by (rule publish_function)
next
  assume "register_implementors v = Function f"
  then have "publish recording_host P v =
      Inr (v\<lparr>invocations := invocations v @ [(f, P)], host_state := host_state v @ [P]\<rparr>)"
    by (rule publish_recording)
  then show "\<exists>v'. publish recording_host P v = Inr v'
      \<and> host_state v' = host_state v @ [P]
      \<and> (\<forall>P'. host_state v' = host_state v @ [P'] \<longrightarrow> dom P' = dom P \<and> (\<forall>k. P' k = P k))"
    by simp
next
  assume "\<not> to_boolean (register_implementors w)"
  then have "publish host P w = Inr (w\<lparr>pending_implementors := Object P\<rparr>)"
    by (rule publish_falsy)
  then show "\<exists>w'. publish host P w = Inr w'
      \<and> pending_implementors w' = Object P
      \<and> (\<forall>P'. pending_implementors w' = Object P' \<longrightarrow> dom P' = dom P \<and> (\<forall>k. P' k = P k))"
    by simp
qed

theorem publish_hands_payload_unchanged_witness:
  "register_implementors recording_page = Function registrar_id
   \<and> (\<exists>v'. publish recording_host payload_A recording_page = Inr v'
         \<and> host_state v' = [payload_A])
   \<and> \<not> to_boolean (register_implementors init_page)
   \<and> (\<exists>w'. publish registrar_host payload_A init_page = Inr w'
         \<and> pending_implementors w' = Object payload_A)
   \<and> payload_A ''libA'' = Some [''x'', ''y'']"
proof -
  have a: "register_implementors recording_page = Function registrar_id"
    and e: "host_state recording_page = []"
    by (simp_all add: recording_page_def)
  have b: "\<not> to_boolean (register_implementors init_page)"
    by (simp add: init_page_def)
  note t = publish_hands_payload_unchanged
    [where v = recording_page and f = registrar_id and P = payload_A
       and w = init_page and host = registrar_host]
  have "\<exists>v'. publish recording_host payload_A recording_page = Inr v'
          \<and> host_state v' = host_state recording_page @ [payload_A]"
    using t [THEN conjunct2, THEN conjunct1, THEN mp, OF a]
    by (elim exE conjE, intro exI conjI)
  with e have "\<exists>v'. publish recording_host payload_A recording_page = Inr v'
          \<and> host_state v' = [payload_A]"
    by simp
  moreover have "\<exists>w'. publish registrar_host payload_A init_page = Inr w'
          \<and> pending_implementors w' = Object payload_A"
    using t [THEN conjunct2, THEN conjunct2, THEN mp, OF b]
    by (elim exE conjE, intro exI conjI)
  ultimately show ?thesis using a b by (simp add: payload_A_def)
qed

subsection \<open>The payload of this file\<close>

text \<open>
  Claim C6. The script builds a mapping with exactly one entry, under the key
  \<open>fasthash\<close>, whose value is a sequence of exactly twenty descriptors: the ten
  \<open>ShrAssign<Rhs>\<close> implementations for \<open>u128\<close>, then the ten for \<open>i128\<close>, each group with
  \<open>Rhs\<close> in the order \<open>u8\<close>, \<open>u16\<close>, \<open>u32\<close>, \<open>u64\<close>, \<open>usize\<close>, \<open>i8\<close>, \<open>i16\<close>, \<open>i32\<close>,
  \<open>i64\<close>, \<open>isize\<close>. It then runs \<open>publish\<close> on that mapping.
\<close>

theorem implementors_contents:
  "dom implementors = {''fasthash''}
   \<and> implementors ''fasthash'' =
       Some (map (shr_assign_impl ''u128'') rhs_types @ map (shr_assign_impl ''i128'') rhs_types)
   \<and> (\<exists>ds. implementors ''fasthash'' = Some ds \<and> length ds = 20)
   \<and> rhs_types = [''u8'', ''u16'', ''u32'', ''u64'', ''usize'', ''i8'', ''i16'', ''i32'', ''i64'', ''isize'']
   \<and> data_publisher host w = publish host implementors w"
proof -
  have "dom implementors = {''fasthash''}"
    by (simp add: implementors_def)
  moreover have "implementors ''fasthash'' =
      Some (map (shr_assign_impl ''u128'') rhs_types @ map (shr_assign_impl ''i128'') rhs_types)"
    by (simp add: implementors_def shr_assign_impl_def rhs_types_def)
  moreover have "\<exists>ds. implementors ''fasthash'' = Some ds \<and> length ds = 20"
    by (simp add: implementors_def)
  ultimately show ?thesis
    by (simp add: rhs_types_def data_publisher_def)
qed

subsection \<open>Failure\<close>

text \<open>
  Claim C7 says that \<open>publish\<close> has no error condition. The script tests
  \<open>register_implementors\<close> for truthiness only and then calls it, with no check that it
  is a function and no handler around the call: with the number \<open>1\<close> in
  \<open>register_implementors\<close>, the call throws a TypeError and \<open>publish\<close> does not complete.
\<close>

theorem publish_not_callable_counterexample:
  "publish registrar_host payload_A (init_page\<lparr>register_implementors := Number 1\<rparr>)
     = Inl TypeError"
  by (simp add: publish_def call_def init_page_def)

text \<open>
  Claim C7, amended. \<open>publish\<close> returns no value. It completes exactly when
  \<open>register_implementors\<close> is falsy or is a function whose call with the payload returns,
  and it then completes by one of two paths: the payload is stored in
  \<open>pending_implementors\<close>, or the function was called with it once. Its failures are
  the TypeError of calling a truthy value that is not a function, and the exception of the
  called function, which it does not catch.
\<close>

theorem publish_completes_iff:
  "((\<exists>w'. publish host P w = Inr w') \<longleftrightarrow>
      (\<not> to_boolean (register_implementors w)
       \<or> (\<exists>f w1. register_implementors w = Function f \<and> host f P w = Inr w1)))
   \<and> (\<forall>w'. publish host P w = Inr w' \<longrightarrow>
         (\<not> to_boolean (register_implementors w) \<and> w' = w\<lparr>pending_implementors := Object P\<rparr>)
         \<or> (\<exists>f w1. register_implementors w = Function f \<and> host f P w = Inr w1
               \<and> w' = w1\<lparr>invocations := invocations w @ [(f, P)]\<rparr>))
   \<and> (\<forall>e. publish host P w = Inl e \<longrightarrow>
         to_boolean (register_implementors w)
         \<and> ((\<forall>f. register_implementors w \<noteq> Function f) \<and> e = TypeError
            \<or> (\<exists>f. register_implementors w = Function f \<and> host f P w = Inl e)))"
proof (cases "to_boolean (register_implementors w)")
  case False
  then have "\<And>f. register_implementors w \<noteq> Function f" by auto
  with False show ?thesis by (simp add: publish_falsy)
next
  case True
  show ?thesis
  proof (cases "\<exists>f. register_implementors w = Function f")
    case True
    then obtain f where "register_implementors w = Function f" ..
    then show ?thesis
      by (cases "host f P w") (simp_all add: publish_function)
  next
    case False
    then have "call host (register_implementors w) P w = Inl TypeError"
      by (simp add: call_not_function)
    with True False show ?thesis by (simp add: publish_def)
  qed
qed

theorem publish_completes_iff_witness:
  "(\<exists>w'. publish registrar_host payload_A init_page = Inr w')
   \<and> (\<exists>w'. publish registrar_host payload_A ready_page = Inr w')
   \<and> to_boolean (register_implementors ready_page)
   \<and> \<not> to_boolean (register_implementors init_page)"
proof -
  have a: "\<not> to_boolean (register_implementors init_page)"
    by (simp add: init_page_def)
  have b: "register_implementors ready_page = Function registrar_id
           \<and> registrar_host registrar_id payload_A ready_page = Inr (accept payload_A ready_page)"
    by (simp add: ready_page_def registrar_host_def)
  have c: "to_boolean (register_implementors ready_page)"
    by (simp add: ready_page_def)
  from a publish_completes_iff [of registrar_host payload_A init_page]
  have "\<exists>w'. publish registrar_host payload_A init_page = Inr w'" by blast
  moreover from b publish_completes_iff [of registrar_host payload_A ready_page]
  have "\<exists>w'. publish registrar_host payload_A ready_page = Inr w'" by blast
  ultimately show ?thesis using a c by blast
qed

subsection \<open>Truthiness decides the branch\<close>

text \<open>
  Claim C8 says that \<open>publish\<close> invokes the registrar if and only if
  \<open>register_implementors\<close> is truthy. With \<open>true\<close> there, the value is truthy and the
  script takes the branch of the call, but there is nothing to invoke: no page function
  runs (the result is the same TypeError with a function that would throw its own
  exception and with the registrar's), and the payload is not staged either.
\<close>

theorem publish_truthy_nothing_invoked_counterexample:
  "to_boolean (register_implementors (init_page\<lparr>register_implementors := Boolean True\<rparr>))
   \<and> publish throwing_host payload_A (init_page\<lparr>register_implementors := Boolean True\<rparr>)
       = Inl TypeError
   \<and> publish registrar_host payload_A (init_page\<lparr>register_implementors := Boolean True\<rparr>)
       = Inl TypeError"
  by (simp add: publish_def call_def init_page_def)

text \<open>
  Claim C8, amended. The branch is chosen by the truthiness of \<open>register_implementors\<close>,
  not by whether the property is defined. The payload is staged in
  \<open>pending_implementors\<close> if and only if the value is falsy, that is \<open>undefined\<close>, \<open>null\<close>,
  \<open>false\<close>, \<open>0\<close>, \<open>NaN\<close> or the empty string, and then no function is invoked. A
  function is invoked with the payload if and only if the value is a function (every
  function is truthy), and it is then the function found there, applied to the payload. A
  truthy value that is not a function is neither invoked nor is the payload staged: the
  call throws a TypeError.
\<close>

theorem publish_branch_by_truthiness:
  "(\<not> to_boolean (register_implementors w) \<longleftrightarrow>
       register_implementors w \<in> {Undefined, Null, Boolean False, Number 0, NaN, Str []})
   \<and> (\<not> to_boolean (register_implementors w) \<longrightarrow>
        publish host P w = Inr (w\<lparr>pending_implementors := Object P\<rparr>))
   \<and> (\<forall>f. register_implementors w = Function f \<longrightarrow>
        to_boolean (register_implementors w)
        \<and> publish host P w =
            (case host f P w of
               Inl e \<Rightarrow> Inl e
             | Inr w1 \<Rightarrow> Inr (w1\<lparr>invocations := invocations w @ [(f, P)]\<rparr>)))
   \<and> (to_boolean (register_implementors w) \<and> (\<forall>f. register_implementors w \<noteq> Function f) \<longrightarrow>
        publish host P w = Inl TypeError)
   \<and> (publish throwing_host P w = Inr (w\<lparr>pending_implementors := Object P\<rparr>) \<longleftrightarrow>
        \<not> to_boolean (register_implementors w))
   \<and> (publish throwing_host P w = Inl (Thrown ''called'') \<longleftrightarrow>
        (\<exists>f. register_implementors w = Function f))"
proof -
  have falsy: "\<not> to_boolean (register_implementors w) \<longleftrightarrow>
      register_implementors w \<in> {Undefined, Null, Boolean False, Number 0, NaN, Str []}"
    by (cases "register_implementors w") auto
  have staged: "publish h P w = Inr (w\<lparr>pending_implementors := Object P\<rparr>)"
    if "\<not> to_boolean (register_implementors w)" for h :: "'a host"
    using that by (rule publish_falsy)
  have called: "to_boolean (register_implementors w)
      \<and> publish host P w =
          (case host f P w of
             Inl e \<Rightarrow> Inl e
           | Inr w1 \<Rightarrow> Inr (w1\<lparr>invocations := invocations w @ [(f, P)]\<rparr>))"
    if "register_implementors w = Function f" for f
    using that by (simp add: publish_function)
  have neither: "publish h P w = Inl TypeError"
    if "to_boolean (register_implementors w)" and "\<forall>f. register_implementors w \<noteq> Function f"
    for h :: "'a host"
    using that by (simp add: publish_truthy_not_function)
  have thrown: "publish throwing_host P w = Inl (Thrown ''called'')"
    if "register_implementors w = Function f" for f
    using that by (rule publish_throwing)
  have probe_staged: "publish throwing_host P w = Inr (w\<lparr>pending_implementors := Object P\<rparr>)
      \<longleftrightarrow> \<not> to_boolean (register_implementors w)"
  proof (cases "to_boolean (register_implementors w)")
    case False
    then show ?thesis by (simp add: staged)
  next
    case True
    show ?thesis
    proof (cases "\<exists>f. register_implementors w = Function f")
      case True
      then obtain f where "register_implementors w = Function f" ..
      then show ?thesis by (simp add: thrown)
    next
      case False
      with True show ?thesis by (simp add: neither)
    qed
  qed
  have probe_called: "publish throwing_host P w = Inl (Thrown ''called'')
      \<longleftrightarrow> (\<exists>f. register_implementors w = Function f)"
  proof (cases "\<exists>f. register_implementors w = Function f")
    case True
    then obtain f where "register_implementors w = Function f" ..
    then show ?thesis by (simp add: thrown)
  next
    case False
    show ?thesis
    proof (cases "to_boolean (register_implementors w)")
      case True
      with False show ?thesis by (simp add: neither)
    next
      case nt: False
      with False show ?thesis by (simp add: staged)
    qed
  qed
  from falsy staged called neither probe_staged probe_called show ?thesis
    by blast
qed

theorem publish_branch_by_truthiness_witness:
  "\<not> to_boolean (register_implementors (init_page\<lparr>register_implementors := Null\<rparr>))
   \<and> publish registrar_host payload_A (init_page\<lparr>register_implementors := Null\<rparr>)
     = Inr \<lparr>register_implementors = Null,
            pending_implementors = Object payload_A,
            invocations = [],
            host_state = \<lparr>display = Map.empty, renders = 0\<rparr>\<rparr>
   \<and> register_implementors ready_page = Function registrar_id
   \<and> publish registrar_host payload_A ready_page
     = Inr \<lparr>register_implementors = Function registrar_id,
            pending_implementors = Undefined,
            invocations = [(registrar_id, payload_A)],
            host_state = \<lparr>display = payload_A, renders = 1\<rparr>\<rparr>
   \<and> publish throwing_host payload_A ready_page = Inl (Thrown ''called'')"
proof -
  let ?n = "init_page\<lparr>register_implementors := Null\<rparr>"
  have a: "\<not> to_boolean (register_implementors ?n)"
    by simp
  have b: "register_implementors ready_page = Function registrar_id"
    by (simp add: ready_page_def)
  from publish_branch_by_truthiness [of ?n registrar_host payload_A] a
  have s: "publish registrar_host payload_A ?n = Inr (?n\<lparr>pending_implementors := Object payload_A\<rparr>)"
    by blast
  from publish_branch_by_truthiness [of ready_page registrar_host payload_A] b
  have c: "publish registrar_host payload_A ready_page =
      (case registrar_host registrar_id payload_A ready_page of
         Inl e \<Rightarrow> Inl e
       | Inr w1 \<Rightarrow> Inr (w1\<lparr>invocations := invocations ready_page @ [(registrar_id, payload_A)]\<rparr>))"
    and t: "publish throwing_host payload_A ready_page = Inl (Thrown ''called'')"
    by blast+
  from a b s c t show ?thesis
    by (simp add: registrar_host_def accept_def ready_page_def init_page_def)
qed

subsection \<open>What publish leaves alone\<close>

text \<open>
  Claim C9. On the branch with the registrar, \<open>publish\<close> itself writes nothing: the
  state after it is the state in which the called function returned (the record of the
  call in the history apart), so \<open>pending_implementors\<close>, a payload staged earlier included,
  is as the function left it, and unchanged whenever the function does not assign to it.
  On the other branch, \<open>register_implementors\<close>, the history of calls and the rest of the
  page are unchanged: only \<open>pending_implementors\<close> is written.
\<close>

theorem publish_frame:
  assumes "publish host P w = Inr w'"
  shows "(to_boolean (register_implementors w) \<longrightarrow>
            (\<exists>f w1. register_implementors w = Function f \<and> host f P w = Inr w1
               \<and> pending_implementors w' = pending_implementors w1
               \<and> register_implementors w' = register_implementors w1
               \<and> host_state w' = host_state w1
               \<and> (pending_implementors w1 = pending_implementors w \<longrightarrow>
                    pending_implementors w' = pending_implementors w)))
         \<and> (\<not> to_boolean (register_implementors w) \<longrightarrow>
              register_implementors w' = register_implementors w
              \<and> host_state w' = host_state w
              \<and> invocations w' = invocations w
              \<and> w' = w\<lparr>pending_implementors := Object P\<rparr>)"
proof (cases "to_boolean (register_implementors w)")
  case True
  from True assms obtain f w1 where "register_implementors w = Function f"
    and "host f P w = Inr w1" and "w' = w1\<lparr>invocations := invocations w @ [(f, P)]\<rparr>"
    by (rule publish_truthy_cases)
  with True show ?thesis by simp
next
  case False
  with assms show ?thesis by (auto simp: publish_falsy)
qed

theorem publish_frame_witness:
  "publish registrar_host payload_B (ready_page\<lparr>pending_implementors := Object payload_A\<rparr>)
     = Inr (accept payload_B (ready_page\<lparr>pending_implementors := Object payload_A\<rparr>)
              \<lparr>invocations := [(registrar_id, payload_B)]\<rparr>)
   \<and> to_boolean (register_implementors (ready_page\<lparr>pending_implementors := Object payload_A\<rparr>))
   \<and> pending_implementors
       (accept payload_B (ready_page\<lparr>pending_implementors := Object payload_A\<rparr>)
          \<lparr>invocations := [(registrar_id, payload_B)]\<rparr>) = Object payload_A"
proof -
  let ?w = "ready_page\<lparr>pending_implementors := Object payload_A\<rparr>"
  let ?w' = "accept payload_B ?w\<lparr>invocations := [(registrar_id, payload_B)]\<rparr>"
  have h: "publish registrar_host payload_B ?w = Inr ?w'"
    by (simp add: publish_def call_def registrar_host_def ready_page_def init_page_def)
  have t: "to_boolean (register_implementors ?w)"
    by (simp add: ready_page_def)
  have r: "\<And>w1. registrar_host registrar_id payload_B ?w = Inr w1 \<Longrightarrow>
             pending_implementors w1 = pending_implementors ?w"
    by (auto simp: registrar_host_def accept_def)
  from publish_frame [OF h] t r have "pending_implementors ?w' = pending_implementors ?w"
    by (auto simp: ready_page_def)
  with h t show ?thesis by simp
qed

subsection \<open>Determinism\<close>

text \<open>
  Claim C10. Every run of the script builds the same payload \<open>p\<close>: the mapping with
  the single key \<open>fasthash\<close> and the twenty descriptors (the \<open>u128\<close> group, then the
  \<open>i128\<close> group) in their order, whatever the state of the page and whatever its
  functions. On a page without the registrar the run stores \<open>p\<close>; on a page with a
  function in \<open>register_implementors\<close> that function is applied to \<open>p\<close>. So two runs
  started in any two states stage the same object, or pass the same argument, as a
  function that records its argument shows, also in a second run on the state the first
  one left. Started in the same state with the same functions, two runs have the same
  outcome.
\<close>

theorem data_publisher_deterministic:
  assumes "p = [''fasthash'' \<mapsto>
                  map (shr_assign_impl ''u128'') rhs_types @ map (shr_assign_impl ''i128'') rhs_types]"
  shows "(\<not> to_boolean (register_implementors w) \<longrightarrow>
            data_publisher host w = Inr (w\<lparr>pending_implementors := Object p\<rparr>))
         \<and> (register_implementors w = Function f \<longrightarrow>
              data_publisher host w =
                (case host f p w of
                   Inl e \<Rightarrow> Inl e
                 | Inr w1 \<Rightarrow> Inr (w1\<lparr>invocations := invocations w @ [(f, p)]\<rparr>)))
         \<and> (\<not> to_boolean (register_implementors wa) \<and> \<not> to_boolean (register_implementors wb) \<longrightarrow>
              (\<exists>wa' wb'. data_publisher hosta wa = Inr wa' \<and> data_publisher hostb wb = Inr wb'
                 \<and> pending_implementors wa' = Object p
                 \<and> pending_implementors wb' = pending_implementors wa'))
         \<and> (register_implementors va = Function fa \<and> register_implementors vb = Function fb \<longrightarrow>
              (\<exists>va' vb'. data_publisher recording_host va = Inr va'
                 \<and> data_publisher recording_host vb = Inr vb'
                 \<and> host_state va' = host_state va @ [p]
                 \<and> host_state vb' = host_state vb @ [p]))
         \<and> (register_implementors va = Function fa \<longrightarrow>
              (\<exists>va' va''. data_publisher recording_host va = Inr va'
                 \<and> data_publisher recording_host va' = Inr va''
                 \<and> host_state va'' = host_state va @ [p, p]))
         \<and> (wa = wb \<and> hosta = hostb \<longrightarrow> data_publisher hosta wa = data_publisher hostb wb)"
proof -
  have p: "p = implementors"
    using assms by (simp only: implementors_generated)
  have a: "\<not> to_boolean (register_implementors w) \<longrightarrow>
      data_publisher host w = Inr (w\<lparr>pending_implementors := Object p\<rparr>)"
    using data_publisher_falsy [of w host] unfolding p by simp
  have b: "register_implementors w = Function f \<longrightarrow>
      data_publisher host w =
        (case host f p w of
           Inl e \<Rightarrow> Inl e
         | Inr w1 \<Rightarrow> Inr (w1\<lparr>invocations := invocations w @ [(f, p)]\<rparr>))"
    using data_publisher_function [of w f host] unfolding p by simp
  have c: "\<not> to_boolean (register_implementors wa) \<and> \<not> to_boolean (register_implementors wb) \<longrightarrow>
      (\<exists>wa' wb'. data_publisher hosta wa = Inr wa' \<and> data_publisher hostb wb = Inr wb'
         \<and> pending_implementors wa' = Object p
         \<and> pending_implementors wb' = pending_implementors wa')"
    using data_publisher_falsy [of wa hosta] data_publisher_falsy [of wb hostb]
    unfolding p by simp
  have d: "register_implementors va = Function fa \<and> register_implementors vb = Function fb \<longrightarrow>
      (\<exists>va' vb'. data_publisher recording_host va = Inr va'
         \<and> data_publisher recording_host vb = Inr vb'
         \<and> host_state va' = host_state va @ [p]
         \<and> host_state vb' = host_state vb @ [p])"
    using data_publisher_recording [of va fa] data_publisher_recording [of vb fb]
    unfolding p by simp
  have e: "register_implementors va = Function fa \<longrightarrow>
      (\<exists>va' va''. data_publisher recording_host va = Inr va'
         \<and> data_publisher recording_host va' = Inr va''
         \<and> host_state va'' = host_state va @ [p, p])"
  proof
    assume h: "register_implementors va = Function fa"
    let ?v = "va\<lparr>invocations := invocations va @ [(fa, implementors)],
                   host_state := host_state va @ [implementors]\<rparr>"
    have "register_implementors ?v = Function fa"
      using h by simp
    from data_publisher_recording [OF h] data_publisher_recording [OF this]
    show "\<exists>va' va''. data_publisher recording_host va = Inr va'
         \<and> data_publisher recording_host va' = Inr va''
         \<and> host_state va'' = host_state va @ [p, p]"
      unfolding p by simp
  qed
  have f: "wa = wb \<and> hosta = hostb \<longrightarrow> data_publisher hosta wa = data_publisher hostb wb"
    by simp
  from a b c d e f show ?thesis
    by (intro conjI)
qed

theorem data_publisher_deterministic_witness:
  "(\<exists>ds. length ds = 20
      \<and> data_publisher registrar_host init_page
          = Inr (init_page\<lparr>pending_implementors := Object [''fasthash'' \<mapsto> ds]\<rparr>)
      \<and> data_publisher registrar_host (init_page\<lparr>pending_implementors := Object payload_A\<rparr>)
          = Inr (init_page\<lparr>pending_implementors := Object [''fasthash'' \<mapsto> ds]\<rparr>)
      \<and> (\<exists>v'. data_publisher recording_host recording_page = Inr v'
            \<and> host_state v' = [[''fasthash'' \<mapsto> ds]]))"
proof -
  let ?ds = "map (shr_assign_impl ''u128'') rhs_types @ map (shr_assign_impl ''i128'') rhs_types"
  let ?s = "init_page\<lparr>pending_implementors := Object payload_A\<rparr>"
  have l: "length ?ds = 20"
    by (simp add: rhs_types_def)
  have a: "\<not> to_boolean (register_implementors init_page)"
    and b: "\<not> to_boolean (register_implementors ?s)"
    by (simp_all add: init_page_def)
  have c: "register_implementors recording_page = Function registrar_id"
    and e: "host_state recording_page = []"
    by (simp_all add: recording_page_def)
  note t = data_publisher_deterministic [OF refl]
  have 1: "data_publisher registrar_host init_page
      = Inr (init_page\<lparr>pending_implementors := Object [''fasthash'' \<mapsto> ?ds]\<rparr>)"
    using t [where w = init_page and host = registrar_host, THEN conjunct1, THEN mp, OF a] .
  have "data_publisher registrar_host ?s
      = Inr (?s\<lparr>pending_implementors := Object [''fasthash'' \<mapsto> ?ds]\<rparr>)"
    using t [where w = ?s and host = registrar_host, THEN conjunct1, THEN mp, OF b] .
  then have 2: "data_publisher registrar_host ?s
      = Inr (init_page\<lparr>pending_implementors := Object [''fasthash'' \<mapsto> ?ds]\<rparr>)"
    by simp
  have "\<exists>v'. data_publisher recording_host recording_page = Inr v'
      \<and> host_state v' = host_state recording_page @ [[''fasthash'' \<mapsto> ?ds]]"
    using t [where va = recording_page and vb = recording_page
               and fa = registrar_id and fb = registrar_id,
             THEN conjunct2, THEN conjunct2, THEN conjunct2, THEN conjunct1, THEN mp,
             OF conjI [OF c c]]
    by (elim exE conjE, intro exI conjI)
  with e have 3: "\<exists>v'. data_publisher recording_host recording_page = Inr v'
      \<and> host_state v' = [[''fasthash'' \<mapsto> ?ds]]"
    by simp
  from l 1 2 3 show ?thesis
    by (intro exI [of _ ?ds] conjI)
qed

subsection \<open>Publishing before and after the registrar is installed\<close>

text \<open>
  Claim C2. For every payload \<open>P\<close>: on a page without the registrar and with an empty
  \<open>pending_implementors\<close>, publishing \<open>P\<close> and then installing the registrar ends in the
  same state as installing the registrar and then publishing \<open>P\<close>. Either way the display
  model is the earlier one with the entries of \<open>P\<close> merged in, which is exactly \<open>P\<close> on a
  page whose display model was empty.
\<close>

theorem publish_install_commute:
  assumes "\<not> to_boolean (register_implementors w)"
    and "pending_implementors w = Undefined"
  shows "run [Publish P, Install] w = run [Install, Publish P] w
         \<and> (\<exists>w'. run [Publish P, Install] w = Inr w'
               \<and> run [Install, Publish P] w = Inr w'
               \<and> display (host_state w') = display (host_state w) ++ P
               \<and> (display (host_state w) = Map.empty \<longrightarrow> display (host_state w') = P))"
proof -
  let ?w' = "w\<lparr>register_implementors := Function registrar_id,
               invocations := invocations w @ [(registrar_id, P)],
               host_state := \<lparr>display = display (host_state w) ++ P,
                               renders = Suc (renders (host_state w))\<rparr>\<rparr>"
  have "run [Publish P, Install] w = Inr ?w'"
    using assms by (cases w) (simp add: publish_falsy install_staged)
  moreover have "run [Install, Publish P] w = Inr ?w'"
    using assms by (simp add: install_empty publish_registrar)
  ultimately show ?thesis by simp
qed

theorem publish_install_commute_witness:
  "\<not> to_boolean (register_implementors init_page)
   \<and> pending_implementors init_page = Undefined
   \<and> run [Publish payload_A, Install] init_page = run [Install, Publish payload_A] init_page
   \<and> (\<exists>w'. run [Publish payload_A, Install] init_page = Inr w'
         \<and> run [Install, Publish payload_A] init_page = Inr w'
         \<and> display (host_state w') = payload_A)"
proof -
  have a: "\<not> to_boolean (register_implementors init_page)"
    and b: "pending_implementors init_page = Undefined"
    and c: "display (host_state init_page) = Map.empty"
    by (simp_all add: init_page_def)
  from publish_install_commute [OF a b, of payload_A] a b c show ?thesis
    by auto
qed

subsection \<open>Delivery\<close>

text \<open>
  Claim C1 says that every published payload reaches the registrar exactly once, also
  when two are published before the registrar is installed. The script keeps one slot:
  the second store into \<open>pending_implementors\<close> replaces the first. After
  \<open>payload_A\<close> and \<open>payload_B\<close> are published and the registrar is installed, the registrar
  has accepted \<open>payload_B\<close> alone; \<open>payload_A\<close> was never passed to it and its key is not in
  the display model.
\<close>

theorem two_publishes_before_install_counterexample:
  "run [Publish payload_A, Publish payload_B, Install] init_page
     = Inr \<lparr>register_implementors = Function registrar_id,
            pending_implementors = Undefined,
            invocations = [(registrar_id, payload_B)],
            host_state = \<lparr>display = payload_B, renders = 1\<rparr>\<rparr>
   \<and> deliveries (run [Publish payload_A, Publish payload_B, Install] init_page) = [payload_B]
   \<and> count_list (deliveries (run [Publish payload_A, Publish payload_B, Install] init_page))
        payload_A = 0
   \<and> payload_A ''libA'' = Some [''x'', ''y'']
   \<and> payload_B ''libA'' = None"
proof -
  have r: "run [Publish payload_A, Publish payload_B, Install] init_page
     = Inr \<lparr>register_implementors = Function registrar_id,
            pending_implementors = Undefined,
            invocations = [(registrar_id, payload_B)],
            host_state = \<lparr>display = payload_B, renders = 1\<rparr>\<rparr>"
    by (simp add: publish_falsy install_staged init_page_def)
  have n: "payload_B \<noteq> payload_A"
    using payload_A_neq_B by simp
  from r n show ?thesis
    by (simp add: deliveries_def payload_A_def payload_B_def)
qed

text \<open>
  Claim C1, amended. In a run of publishes, the installation of the registrar, and more
  publishes, started on the empty page: every payload published after the installation
  is accepted by the registrar exactly once, when it is published; of the payloads
  published before the installation, the last one is accepted exactly once, at the
  installation, and the earlier ones are replaced in \<open>pending_implementors\<close> and never
  accepted. So with at most one publish before the installation every payload is
  delivered exactly once, in the order of publication. The run always completes, with
  \<open>pending_implementors\<close> cleared and the display model merged from the accepted payloads.
\<close>

theorem delivery_of_last_staged_and_ready:
  "deliveries (run (map Publish ps @ Install # map Publish qs) init_page)
     = (if ps = [] then [] else [last ps]) @ qs
   \<and> (length ps \<le> 1 \<longrightarrow>
        deliveries (run (map Publish ps @ Install # map Publish qs) init_page) = ps @ qs)
   \<and> (\<exists>w. run (map Publish ps @ Install # map Publish qs) init_page = Inr w
         \<and> pending_implementors w = Undefined
         \<and> display (host_state w)
             = foldl (++) Map.empty ((if ps = [] then [] else [last ps]) @ qs))"
proof -
  let ?es = "map Publish ps @ Install # map Publish qs"
  let ?staged = "if ps = [] then [] else [last ps]"
  have u: "\<not> to_boolean (register_implementors init_page)"
    by (simp add: init_page_def)
  let ?w1 = "if ps = [] then init_page
             else init_page\<lparr>pending_implementors := Object (last ps)\<rparr>"
  have s1: "run (map Publish ps) init_page = Inr ?w1"
    using run_publishes_uninitialized [OF u] .
  let ?w2 = "init_page\<lparr>register_implementors := Function registrar_id,
                        invocations := map (Pair registrar_id) ?staged,
                        host_state := \<lparr>display = foldl (++) Map.empty ?staged,
                                        renders = length ?staged\<rparr>\<rparr>"
  have s2: "install ?w1 = Inr ?w2"
    by (simp add: install_empty install_staged init_page_def)
  have f: "register_implementors ?w2 = Function registrar_id"
    by simp
  let ?w3 = "?w2\<lparr>invocations := invocations ?w2 @ map (Pair registrar_id) qs,
                  host_state := \<lparr>display = foldl (++) (display (host_state ?w2)) qs,
                                  renders = renders (host_state ?w2) + length qs\<rparr>\<rparr>"
  have s3: "run (map Publish qs) ?w2 = Inr ?w3"
    using run_publishes_ready [OF f] .
  have r: "run ?es init_page = Inr ?w3"
    by (simp only: run_append s1 s2 s3 run.simps step.simps sum.case)
  have d: "deliveries (run ?es init_page) = ?staged @ qs"
    by (simp only: r) (simp add: deliveries_def comp_def)
  have one: "length ps \<le> 1 \<longrightarrow> ?staged = ps"
    by (cases ps) auto
  have p: "pending_implementors ?w3 = Undefined"
    by (simp add: init_page_def)
  have m: "display (host_state ?w3) = foldl (++) Map.empty (?staged @ qs)"
    by simp
  from d one r p m show ?thesis
    by (simp only:) blast
qed

theorem delivery_of_last_staged_and_ready_witness:
  "deliveries (run [Publish payload_A, Install, Publish payload_B] init_page)
     = [payload_A, payload_B]"
  using delivery_of_last_staged_and_ready [of "[payload_A]" "[payload_B]"]
  by simp


end
